theory Spec2Isabelle
  imports Complex_Main
begin

section \<open>float64 numbers\<close>

text \<open>
  The arrays of the notebook hold float64 numbers. A float64 value is a finite number,
  an infinity or NaN; the sign of zero is not modelled. The result of an arithmetic
  operation on finite numbers is the exact result rounded to the nearest float64 number,
  ties to the even significand (53 bits, exponents from \<open>-1074\<close> for the last bit of a
  subnormal number to \<open>971\<close> for the last bit of the largest number), and it is an infinity
  when the rounded result reaches \<open>2\<^sup>1\<^sup>0\<^sup>2\<^sup>4\<close>.
\<close>

datatype npfloat = Fin real | PInf | NInf | NaN

fun fneg :: "npfloat \<Rightarrow> npfloat" where
  "fneg (Fin x) = Fin (- x)"
| "fneg PInf = NInf"
| "fneg NInf = PInf"
| "fneg NaN = NaN"

definition round_half_even :: "real \<Rightarrow> int" where
  "round_half_even q =
     (let f = \<lfloor>q\<rfloor>; d = q - of_int f
      in if d < 1 / 2 then f else if 1 / 2 < d then f + 1 else if even f then f else f + 1)"

definition round_pos :: "real \<Rightarrow> npfloat" where
  "round_pos x =
     (let e = max (\<lfloor>log 2 x\<rfloor> - 52) (- 1074);
          r = of_int (round_half_even (x / 2 powi e)) * 2 powi e
      in if 2 ^ 1024 \<le> r then PInf else Fin r)"

definition round64 :: "real \<Rightarrow> npfloat" where
  "round64 x =
     (if x = 0 then Fin 0 else if 0 < x then round_pos x else fneg (round_pos (- x)))"

fun fadd :: "npfloat \<Rightarrow> npfloat \<Rightarrow> npfloat" where
  "fadd NaN b = NaN"
| "fadd a NaN = NaN"
| "fadd PInf NInf = NaN"
| "fadd NInf PInf = NaN"
| "fadd PInf b = PInf"
| "fadd a PInf = PInf"
| "fadd NInf b = NInf"
| "fadd a NInf = NInf"
| "fadd (Fin a) (Fin b) = round64 (a + b)"

definition fsub :: "npfloat \<Rightarrow> npfloat \<Rightarrow> npfloat" where
  "fsub a b = fadd a (fneg b)"

text \<open>The product of an infinity and a finite number has the sign of the product, and is
  NaN when the finite number is zero.\<close>

definition inf_times :: "bool \<Rightarrow> real \<Rightarrow> npfloat" where
  "inf_times positive a =
     (if a = 0 then NaN else if (0 < a) = positive then PInf else NInf)"

fun fmul :: "npfloat \<Rightarrow> npfloat \<Rightarrow> npfloat" where
  "fmul NaN b = NaN"
| "fmul a NaN = NaN"
| "fmul (Fin a) (Fin b) = round64 (a * b)"
| "fmul PInf (Fin b) = inf_times True b"
| "fmul NInf (Fin b) = inf_times False b"
| "fmul (Fin a) PInf = inf_times True a"
| "fmul (Fin a) NInf = inf_times False a"
| "fmul PInf PInf = PInf"
| "fmul NInf NInf = PInf"
| "fmul PInf NInf = NInf"
| "fmul NInf PInf = NInf"

text \<open>\<^verbatim>\<open>np.sqrt\<close> of one number: NaN for a negative argument and for NaN.\<close>

fun fsqrt :: "npfloat \<Rightarrow> npfloat" where
  "fsqrt (Fin a) = (if a < 0 then NaN else round64 (sqrt a))"
| "fsqrt PInf = PInf"
| "fsqrt NInf = NaN"
| "fsqrt NaN = NaN"

text \<open>\<^verbatim>\<open>np.maximum(0, x)\<close> of one number: NaN is propagated.\<close>

fun fmax0 :: "npfloat \<Rightarrow> npfloat" where
  "fmax0 (Fin a) = Fin (max 0 a)"
| "fmax0 PInf = PInf"
| "fmax0 NInf = Fin 0"
| "fmax0 NaN = NaN"

fun fabs :: "npfloat \<Rightarrow> npfloat" where
  "fabs (Fin a) = Fin \<bar>a\<bar>"
| "fabs PInf = PInf"
| "fabs NInf = PInf"
| "fabs NaN = NaN"

text \<open>The larger of two numbers as \<^verbatim>\<open>np.max\<close> takes it: NaN is propagated.\<close>

fun fmaxn :: "npfloat \<Rightarrow> npfloat \<Rightarrow> npfloat" where
  "fmaxn NaN b = NaN"
| "fmaxn a NaN = NaN"
| "fmaxn PInf b = PInf"
| "fmaxn a PInf = PInf"
| "fmaxn NInf b = b"
| "fmaxn a NInf = a"
| "fmaxn (Fin a) (Fin b) = Fin (max a b)"

text \<open>A sum as numpy accumulates it, from the first element on; the empty sum is 0.\<close>

fun fsum :: "npfloat list \<Rightarrow> npfloat" where
  "fsum [] = Fin 0"
| "fsum (x # xs) = foldl fadd x xs"

section \<open>Arrays\<close>

text \<open>
  A two-dimensional array has a shape and rows; a one-dimensional array is a list. The
  shape is kept beside the rows, since an array with no rows still has a number of
  columns. numpy arrays are rectangular, which is what \<open>rectangular\<close> says.
\<close>

datatype error =
    ValueError
  | LinAlgError
  | NameError
  | ShapeError
  | ConfigurationError

record arr2 =
  nrows :: nat
  ncols :: nat
  rows :: "npfloat list list"

definition rectangular :: "arr2 \<Rightarrow> bool" where
  "rectangular A \<longleftrightarrow> length (rows A) = nrows A \<and> list_all (\<lambda>r. length r = ncols A) (rows A)"

definition mk_arr :: "nat \<Rightarrow> nat \<Rightarrow> (nat \<Rightarrow> nat \<Rightarrow> npfloat) \<Rightarrow> arr2" where
  "mk_arr n m f = \<lparr>nrows = n, ncols = m, rows = map (\<lambda>i. map (f i) [0..<m]) [0..<n]\<rparr>"

definition ent :: "arr2 \<Rightarrow> nat \<Rightarrow> nat \<Rightarrow> npfloat" where
  "ent A i j = rows A ! i ! j"

text \<open>\<^verbatim>\<open>np.sum(A, axis=0)\<close>: the sum of every column, the rows added in order.\<close>

definition np_sum_axis0 :: "arr2 \<Rightarrow> npfloat list" where
  "np_sum_axis0 A = map (\<lambda>j. fsum (map (\<lambda>r. r ! j) (rows A))) [0..<ncols A]"

text \<open>\<^verbatim>\<open>np.diag(d)\<close> for a one-dimensional \<open>d\<close>.\<close>

definition np_diag :: "npfloat list \<Rightarrow> arr2" where
  "np_diag d = mk_arr (length d) (length d) (\<lambda>i j. if i = j then d ! i else Fin 0)"

text \<open>
  \<^verbatim>\<open>A - B\<close> on two-dimensional arrays, with numpy's broadcasting: two extents are
  compatible when they are equal or one of them is 1, and the operation raises
  \<^verbatim>\<open>ValueError\<close> otherwise.
\<close>

definition broadcastable :: "nat \<Rightarrow> nat \<Rightarrow> bool" where
  "broadcastable a b \<longleftrightarrow> a = b \<or> a = 1 \<or> b = 1"

definition bdim :: "nat \<Rightarrow> nat \<Rightarrow> nat" where
  "bdim a b = (if a = 1 then b else a)"

definition bidx :: "nat \<Rightarrow> nat \<Rightarrow> nat" where
  "bidx a i = (if a = 1 then 0 else i)"

definition np_sub :: "arr2 \<Rightarrow> arr2 \<Rightarrow> error + arr2" where
  "np_sub A B =
     (if broadcastable (nrows A) (nrows B) \<and> broadcastable (ncols A) (ncols B)
      then Inr (mk_arr (bdim (nrows A) (nrows B)) (bdim (ncols A) (ncols B))
                  (\<lambda>i j. fsub (ent A (bidx (nrows A) i) (bidx (ncols A) j))
                              (ent B (bidx (nrows B) i) (bidx (ncols B) j))))
      else Inl ValueError)"

text \<open>\<^verbatim>\<open>A.T\<close>.\<close>

definition np_transpose :: "arr2 \<Rightarrow> arr2" where
  "np_transpose A = mk_arr (ncols A) (nrows A) (\<lambda>i j. ent A j i)"

text \<open>
  \<^verbatim>\<open>np.dot(A, B)\<close> and \<^verbatim>\<open>np.matmul(A, B)\<close> on two-dimensional arrays: shapes that are
  not aligned raise \<^verbatim>\<open>ValueError\<close>. The products of an entry are added from left to
  right. BLAS may add them in another order; no statement below depends on the order,
  since in every sum that is evaluated at most one term is not zero.
\<close>

definition np_dot :: "arr2 \<Rightarrow> arr2 \<Rightarrow> error + arr2" where
  "np_dot A B =
     (if ncols A = nrows B
      then Inr (mk_arr (nrows A) (ncols B)
                  (\<lambda>i j. fsum (map (\<lambda>l. fmul (ent A i l) (ent B l j)) [0..<ncols A])))
      else Inl ValueError)"

text \<open>\<^verbatim>\<open>np.maximum(0, v)\<close> and \<^verbatim>\<open>np.sqrt(v)\<close>, entry by entry.\<close>

definition np_maximum0 :: "npfloat list \<Rightarrow> npfloat list" where
  "np_maximum0 v = map fmax0 v"

definition np_sqrt :: "npfloat list \<Rightarrow> npfloat list" where
  "np_sqrt v = map fsqrt v"

text \<open>\<^verbatim>\<open>np.max(np.abs(A))\<close>; \<^verbatim>\<open>np.max\<close> of an empty array raises
  \<^verbatim>\<open>ValueError\<close>.\<close>

definition np_max_abs :: "arr2 \<Rightarrow> error + npfloat" where
  "np_max_abs A =
     (case concat (rows A) of
        [] \<Rightarrow> Inl ValueError
      | x # xs \<Rightarrow> Inr (foldl fmaxn (fabs x) (map fabs xs)))"

section \<open>Square root of the graph Laplacian\<close>

text \<open>
  \<^verbatim>\<open>
  degree = np.sum(W, axis=0)
  L = np.diag(degree) - W
  evals, evecs = np.linalg.eigh(L)
  evals = np.maximum(0, evals)
  S = np.dot(np.diag(np.sqrt(evals)), evecs.T)
  print(np.max(np.abs(np.matmul(S.T, S) - L)))
  \<close>
  The eigensolver is LAPACK's; it is a parameter \<open>solve\<close> of the model, which returns
  the eigenvalues and the array whose columns are the eigenvectors, or an error.
  \<^verbatim>\<open>np.linalg.eigh\<close> itself raises \<^verbatim>\<open>LinAlgError\<close> for an array that is not square
  before it calls the solver.
\<close>

type_synonym eigensolver = "arr2 \<Rightarrow> error + npfloat list \<times> arr2"

definition np_linalg_eigh :: "eigensolver \<Rightarrow> eigensolver" where
  "np_linalg_eigh solve L = (if nrows L = ncols L then solve L else Inl LinAlgError)"

definition degree :: "arr2 \<Rightarrow> npfloat list" where
  "degree W = np_sum_axis0 W"

definition laplacian :: "arr2 \<Rightarrow> error + arr2" where
  "laplacian W = np_sub (np_diag (degree W)) W"

definition spectral_sqrt :: "npfloat list \<Rightarrow> arr2 \<Rightarrow> error + arr2" where
  "spectral_sqrt evals evecs =
     np_dot (np_diag (np_sqrt (np_maximum0 evals))) (np_transpose evecs)"

definition lap_sqrt :: "eigensolver \<Rightarrow> arr2 \<Rightarrow> error + arr2" where
  "lap_sqrt solve W =
     (case laplacian W of
        Inl e \<Rightarrow> Inl e
      | Inr L \<Rightarrow>
          (case np_linalg_eigh solve L of
             Inl e \<Rightarrow> Inl e
           | Inr (evals, evecs) \<Rightarrow> spectral_sqrt evals evecs))"

text \<open>The check cell: the number it prints, or the error it raises.\<close>

definition gram_check :: "arr2 \<Rightarrow> arr2 \<Rightarrow> error + npfloat" where
  "gram_check S L =
     (case np_dot (np_transpose S) S of
        Inl e \<Rightarrow> Inl e
      | Inr G \<Rightarrow> (case np_sub G L of Inl e \<Rightarrow> Inl e | Inr D \<Rightarrow> np_max_abs D))"

section \<open>The ncLasso estimator\<close>

text \<open>
  \<^verbatim>\<open>
  class ncLasso(base.BaseEstimator, base.RegressorMixin):
      def __init__(self, LapSqrt=None, lambda1=1.0, lambda2=1.0):
          self.LapSqrt = LapSqrt # sparse matrix
          self.lambda1 = lambda1
          self.lambda2 = lambda2

      def fit(self, X, y):
          self.lasso = linear_model.Lasso(fit_intercept=True, alpha=self.lambda1)
          ## TODO:
          ## y_new = ...
          ## X_new = ...
          self.lasso.fit(X_new, y_new)
          ## TODO:
          ## self.coef_ = ...
          return self

      def predict(self, X, y=None):
          ## TODO:
          ## return ...
  \<close>
  An attribute that has not been assigned is \<open>None\<close>. The attributes \<^verbatim>\<open>coef_\<close> and
  \<^verbatim>\<open>intercept_\<close> of scikit-learn's Lasso are the fields \<open>las_coef\<close> and
  \<open>las_intercept\<close>; those of the estimator are \<open>coef\<close> and \<open>intercept\<close>. The estimator
  stores \<^verbatim>\<open>LapSqrt\<close> and never reads it, so the model leaves its type open. The data
  of \<^verbatim>\<open>fit\<close> and \<^verbatim>\<open>predict\<close> are lists of reals.
\<close>

type_synonym vec = "real list"
type_synonym mat = "real list list"

definition dotp :: "vec \<Rightarrow> vec \<Rightarrow> real" where
  "dotp xs ys = sum_list (map2 (*) xs ys)"

record Lasso =
  fit_intercept :: bool
  alpha :: real
  las_coef :: "vec option"
  las_intercept :: "real option"

record 'a ncLasso =
  LapSqrt :: "'a option"
  lambda1 :: real
  lambda2 :: real
  lasso :: "Lasso option"
  coef :: "vec option"
  intercept :: "real option"

definition ncLasso_init :: "'a option \<Rightarrow> real \<Rightarrow> real \<Rightarrow> 'a ncLasso" where
  "ncLasso_init S l1 l2 =
     \<lparr>LapSqrt = S, lambda1 = l1, lambda2 = l2, lasso = None, coef = None, intercept = None\<rparr>"

text \<open>\<^verbatim>\<open>linear_model.Lasso(fit_intercept=fi, alpha=a)\<close>: a Lasso object that is not fitted.\<close>

definition new_Lasso :: "bool \<Rightarrow> real \<Rightarrow> Lasso" where
  "new_Lasso fi a = \<lparr>fit_intercept = fi, alpha = a, las_coef = None, las_intercept = None\<rparr>"

text \<open>
  \<^verbatim>\<open>fit\<close> as the source has it. The first statement constructs the inner Lasso with
  \<^verbatim>\<open>fit_intercept=True\<close> and \<^verbatim>\<open>alpha=self.lambda1\<close> and assigns it to
  \<^verbatim>\<open>self.lasso\<close>. The second evaluates the arguments of
  \<^verbatim>\<open>self.lasso.fit(X_new, y_new)\<close>: neither \<^verbatim>\<open>X_new\<close> nor \<^verbatim>\<open>y_new\<close> is bound, in
  \<^verbatim>\<open>fit\<close> (the statements that would bind them are comments) or anywhere else in the
  notebook, so Python raises \<^verbatim>\<open>NameError\<close> before the inner solver is called. The
  statements after it are not reached, and the exception leaves the estimator as the
  first statement made it.
\<close>

definition fit :: "'a ncLasso \<Rightarrow> mat \<Rightarrow> vec \<Rightarrow> (error + unit) \<times> 'a ncLasso" where
  "fit self X y =
     (let self1 = self\<lparr>lasso := Some (new_Lasso True (lambda1 self))\<rparr>
      in (Inl NameError, self1))"

text \<open>
  Modelled from the spec: the body of \<^verbatim>\<open>predict\<close> is a TODO in the source. The spec
  returns \<open>X \<sqdot> \<beta> + intercept\<close> and makes it a ShapeError to predict before a fit or with
  rows whose length is not that of \<open>\<beta>\<close>.
\<close>

definition predict :: "'a ncLasso \<Rightarrow> mat \<Rightarrow> error + vec" where
  "predict self X =
     (case (coef self, intercept self) of
        (Some beta, Some b) \<Rightarrow>
          if list_all (\<lambda>r. length r = length beta) X
          then Inr (map (\<lambda>r. dotp r beta + b) X)
          else Inl ShapeError
      | _ \<Rightarrow> Inl ShapeError)"

text \<open>The states an estimator can be in: constructed, then any number of calls of
  \<^verbatim>\<open>fit\<close>.\<close>

inductive reachable :: "'a ncLasso \<Rightarrow> bool" where
  init: "reachable (ncLasso_init S l1 l2)"
| step: "reachable s \<Longrightarrow> reachable (snd (fit s X y))"

text \<open>An array of finite numbers, written by its shape and its rows.\<close>

definition arr :: "nat \<Rightarrow> nat \<Rightarrow> real list list \<Rightarrow> arr2" where
  "arr n m xs = \<lparr>nrows = n, ncols = m, rows = map (map Fin) xs\<rparr>"

section \<open>Properties of numbers and arrays\<close>

text \<open>A negative number, \<open>-\<infinity>\<close> included.\<close>

definition negative :: "npfloat \<Rightarrow> bool" where
  "negative v = (case v of Fin x \<Rightarrow> x < 0 | NInf \<Rightarrow> True | _ \<Rightarrow> False)"

text \<open>\<^verbatim>\<open>np.isfinite\<close>: neither an infinity nor NaN, and below the overflow threshold.\<close>

definition finite64 :: "npfloat \<Rightarrow> bool" where
  "finite64 v = (case v of Fin x \<Rightarrow> \<bar>x\<bar> < 2 ^ 1024 | _ \<Rightarrow> False)"

text \<open>A finite float64 number: rounding leaves it as it is.\<close>

definition is_float64 :: "npfloat \<Rightarrow> bool" where
  "is_float64 v = (case v of Fin x \<Rightarrow> round64 x = Fin x | _ \<Rightarrow> False)"

text \<open>A natural number, as the entries 0 and 1 of an adjacency matrix are.\<close>

definition nat_valued :: "npfloat \<Rightarrow> bool" where
  "nat_valued v = (case v of Fin x \<Rightarrow> x = real (nat \<lfloor>x\<rfloor>) | _ \<Rightarrow> False)"

text \<open>The real number that a finite entry stands for.\<close>

definition val :: "npfloat \<Rightarrow> real" where
  "val v = (case v of Fin x \<Rightarrow> x | _ \<Rightarrow> 0)"

definition no_nan :: "arr2 \<Rightarrow> bool" where
  "no_nan A = list_all (list_all (\<lambda>v. v \<noteq> NaN)) (rows A)"


text \<open>
  The sums of a column and of a row and the quadratic form \<open>x\<^sup>T L x\<close>, over the real
  numbers: what the entries of an array add up to, without rounding.
\<close>

definition column_sum :: "arr2 \<Rightarrow> nat \<Rightarrow> real" where
  "column_sum W j = (\<Sum>i<nrows W. val (ent W i j))"

definition row_sum :: "arr2 \<Rightarrow> nat \<Rightarrow> real" where
  "row_sum L i = (\<Sum>j<ncols L. val (ent L i j))"

definition quad_form :: "arr2 \<Rightarrow> real list \<Rightarrow> real" where
  "quad_form L x = (\<Sum>i<nrows L. \<Sum>j<ncols L. x ! i * val (ent L i j) * x ! j)"

text \<open>
  An adjacency matrix on \<open>p\<close> nodes: a \<open>p \<times> p\<close> array of finite float64 numbers that are
  not negative, symmetric (\<^verbatim>\<open>W.T == W\<close>) and with a zero diagonal.
\<close>

definition adjacency :: "nat \<Rightarrow> arr2 \<Rightarrow> bool" where
  "adjacency p W \<longleftrightarrow>
     rectangular W \<and> nrows W = p \<and> ncols W = p
     \<and> list_all (list_all (\<lambda>v. is_float64 v \<and> 0 \<le> val v)) (rows W)
     \<and> np_transpose W = W
     \<and> list_all (\<lambda>i. ent W i i = Fin 0) [0..<p]"

text \<open>
  \<^verbatim>\<open>np.sum(W, axis=0)\<close> has not rounded: every degree is the sum of its column, and
  a float64 number.
\<close>

definition exact_degree :: "arr2 \<Rightarrow> bool" where
  "exact_degree W \<longleftrightarrow>
     degree W = map (\<lambda>j. Fin (column_sum W j)) [0..<ncols W]
     \<and> list_all is_float64 (degree W)"

section \<open>Rounding\<close>

lemma round_pos_not_NaN: "round_pos x \<noteq> NaN"
  by (simp add: round_pos_def Let_def)

lemma round64_not_NaN: "round64 x \<noteq> NaN"
  using round_pos_not_NaN [of x] round_pos_not_NaN [of "- x"]
  by (cases "round_pos (- x)") (auto simp: round64_def)

lemma round64_zero: "round64 0 = Fin 0"
  by (simp add: round64_def)

lemma round64_minus: "round64 (- x) = fneg (round64 x)"
proof -
  have "fneg (fneg v) = v" for v by (cases v) simp_all
  then show ?thesis by (simp add: round64_def)
qed

lemma round_half_even_int: "round_half_even (of_int m) = m"
  by (simp add: round_half_even_def)

lemma floor_log2: 
  assumes "2 powi k \<le> x" "x < 2 powi (k + 1)"
  shows "\<lfloor>log 2 x\<rfloor> = k"
proof -
  have x: "0 < x" using assms(1) by (rule less_le_trans [rotated]) simp
  have a: "(2::real) powr (of_int k) = 2 powi k" by (simp add: powr_real_of_int')
  have "(2::real) powr (of_int (k + 1)) = 2 powi (k + 1)" by (rule powr_real_of_int') simp_all
  then have b: "(2::real) powr (of_int k + 1) = 2 powi (k + 1)" by simp
  show ?thesis using x assms by (simp add: floor_log_eq_powr_iff a b)
qed

text \<open>A positive number \<open>m \<sqdot> 2\<^sup>e\<close> with \<open>2\<^sup>5\<^sup>2 \<le> m < 2\<^sup>5\<^sup>3\<close> is a float64 number.\<close>

lemma round_pos_normal:
  assumes m: "2 ^ 52 \<le> m" "m < 2 ^ 53" and e: "- 1074 \<le> e" "e \<le> 971"
  shows "round_pos (of_int m * 2 powi e) = Fin (of_int m * 2 powi e)"
proof -
  let ?x = "of_int m * 2 powi e :: real"
  have p: "0 < (2::real) powi e" by simp
  have "real_of_int (2 ^ 52) \<le> real_of_int m" using m(1) by (simp only: of_int_le_iff)
  then have mlo: "2 ^ 52 \<le> real_of_int m" by simp
  have "real_of_int m < real_of_int (2 ^ 53)" using m(2) by (simp only: of_int_less_iff)
  then have mhi: "real_of_int m < 2 ^ 53" by simp
  have lo: "2 powi (e + 52) \<le> ?x"
  proof -
    have "(2::real) powi (e + 52) = 2 ^ 52 * 2 powi e" by (simp add: power_int_add)
    also have "\<dots> \<le> ?x" using mlo p by (intro mult_right_mono) simp_all
    finally show ?thesis .
  qed
  have hi: "?x < 2 powi (e + 52 + 1)"
  proof -
    have "?x < 2 ^ 53 * 2 powi e" using mhi p by (intro mult_strict_right_mono) simp_all
    also have "\<dots> = 2 powi (e + 52 + 1)" by (simp add: power_int_add)
    finally show ?thesis .
  qed
  have fl: "\<lfloor>log 2 ?x\<rfloor> = e + 52" using lo hi by (rule floor_log2)
  have ee: "max (\<lfloor>log 2 ?x\<rfloor> - 52) (- 1074) = e" using e(1) by (simp add: fl)
  have q: "?x / 2 powi e = of_int m" by simp
  have "?x < 2 ^ 53 * 2 powi e" using mhi p by (intro mult_strict_right_mono) simp_all
  also have "\<dots> \<le> 2 ^ 53 * 2 powi 971"
    using e(2) by (intro mult_left_mono power_int_increasing) simp_all
  also have "\<dots> = 2 ^ 1024" by simp
  finally have small: "\<not> 2 ^ 1024 \<le> ?x" by simp
  show ?thesis
    unfolding round_pos_def Let_def ee q round_half_even_int using small by simp
qed

lemma round_pos_1: "round_pos 1 = Fin 1"
  using round_pos_normal [of "2 ^ 52" "- 52"] by simp

lemma round_pos_2: "round_pos 2 = Fin 2"
  using round_pos_normal [of "2 ^ 52" "- 51"] by simp

lemma round_pos_3: "round_pos 3 = Fin 3"
  using round_pos_normal [of "3 * 2 ^ 51" "- 51"] by simp

lemma round_pos_1e16: "round_pos (10 ^ 16) = Fin (10 ^ 16)"
  using round_pos_normal [of "5 * 10 ^ 15" 1] by simp

lemma round_pos_2p1023: "round_pos (2 ^ 1023) = Fin (2 ^ 1023)"
  using round_pos_normal [of "2 ^ 52" 971] by simp

lemma round_half_even_numeral: "round_half_even (numeral k) = numeral k"
  by (simp add: round_half_even_def)

lemma round_pos_1e16_plus_1: "round_pos (10 ^ 16 + 1) = Fin (10 ^ 16)"
proof -
  have fl: "\<lfloor>log 2 (10 ^ 16 + 1 :: real)\<rfloor> = 53"
    by (rule floor_log2) simp_all
  have t: "round_half_even (10000000000000001 / 2) = 5000000000000000"
    by (simp add: round_half_even_def Let_def)
  show ?thesis
    by (simp add: round_pos_def Let_def fl [simplified] t)
qed

lemma round_pos_2p1024: "round_pos (2 ^ 1024) = PInf"
proof -
  have fl: "\<lfloor>log 2 (2 ^ 1024 :: real)\<rfloor> = 1024"
    by (rule floor_log2) simp_all
  show ?thesis
    by (simp add: round_pos_def Let_def fl [simplified] round_half_even_numeral)
qed

lemmas f64 = round64_def round_pos_1 round_pos_2 round_pos_3 round_pos_1e16 [simplified]
  round_pos_2p1023 [simplified] round_pos_1e16_plus_1 [simplified] round_pos_2p1024 [simplified]
  fsub_def inf_times_def

lemma round_half_even_le: "of_int (round_half_even q) \<le> q + 1"
  by (auto simp: round_half_even_def Let_def) linarith+

lemma round_pos_small:
  assumes "0 < s" "s < 2 ^ 512"
  shows "\<exists>y. round_pos s = Fin y"
proof -
  define e where "e = max (\<lfloor>log 2 s\<rfloor> - 52) (- 1074)"
  have "s < 2 powr 512" using assms(2) by simp
  then have "log 2 s < 512" using assms(1) by (simp add: log_less_iff)
  then have "\<lfloor>log 2 s\<rfloor> < 512" by linarith
  then have e: "e \<le> 459" by (simp add: e_def)
  have p: "0 < (2::real) powi e" by simp
  have "of_int (round_half_even (s / 2 powi e)) * 2 powi e \<le> (s / 2 powi e + 1) * 2 powi e"
    using p by (intro mult_right_mono round_half_even_le) simp_all
  also have "\<dots> = s + 2 powi e" using p by (simp add: field_simps)
  also have "\<dots> < 2 ^ 512 + 2 powi 459"
    using assms(2) e by (intro add_less_le_mono power_int_increasing) simp_all
  also have "\<dots> < 2 ^ 1024" by simp
  finally have "\<not> (2 ^ 1024 :: real) \<le> of_int (round_half_even (s / 2 powi e)) * 2 powi e" by simp
  then show ?thesis by (simp add: round_pos_def Let_def e_def [symmetric])
qed

lemma sqrt_is_finite:
  assumes "0 \<le> x" "x < 2 ^ 1024"
  shows "\<exists>y. round64 (sqrt x) = Fin y"
proof (cases "x = 0")
  case True
  then show ?thesis by (simp add: round64_def)
next
  case False
  then have s: "0 < sqrt x" using assms(1) by simp
  have "x < (2 ^ 512)\<^sup>2" using assms(2) by simp
  then have "sqrt x < 2 ^ 512" by (intro real_less_lsqrt) simp_all
  then show ?thesis using s round_pos_small [of "sqrt x"] by (simp add: round64_def)
qed

lemma round_pos_nat:
  assumes "0 < n" "n < 2 ^ 53"
  shows "round_pos (real n) = Fin (real n)"
proof -
  define l where "l = \<lfloor>log 2 (real n)\<rfloor>"
  have "1 \<le> real n" using assms(1) by simp
  then have "0 \<le> log 2 (real n)" by simp
  then have l0: "0 \<le> l" by (simp add: l_def)
  have "real n < real (2 ^ 53)" using assms(2) by (simp only: of_nat_less_iff)
  then have n53: "real n < 2 ^ 53" by simp
  then have "real n < 2 powr 53" by simp
  then have "log 2 (real n) < 53" using assms(1) by (simp add: log_less_iff)
  then have l1: "l \<le> 52" unfolding l_def by linarith
  define k where "k = nat (52 - l)"
  have e: "max (l - 52) (- 1074) = - int k" using l0 l1 by (simp add: k_def)
  have q: "real n / 2 powi (- int k) = of_int (int n * 2 ^ k)"
    by (simp add: power_int_minus field_simps)
  have r: "real_of_int (int n * 2 ^ k) * 2 powi (- int k) = real n"
    by (simp add: power_int_minus)
  have "real n < 2 ^ 1024" using n53 by simp
  then have small: "\<not> 2 ^ 1024 \<le> real n" by simp
  show ?thesis
    unfolding round_pos_def Let_def l_def [symmetric] e q round_half_even_int r
    using small by simp
qed

lemma round64_nat: "n < 2 ^ 53 \<Longrightarrow> round64 (real n) = Fin (real n)"
  by (cases "n = 0") (simp_all add: round64_def round_pos_nat)

lemma round_pos_sqrt2: "round_pos (6369051672525772 / 2 ^ 52) = Fin (6369051672525772 / 2 ^ 52)"
  using round_pos_normal [of 6369051672525772 "- 52"] by (simp add: power_int_minus field_simps)

section \<open>Sums\<close>

lemma fadd_zero_not_NaN: "a \<noteq> NaN \<Longrightarrow> fadd a (Fin 0) \<noteq> NaN"
  by (cases a) (simp_all add: round64_not_NaN)

lemma fadd_zero_left_not_NaN: "t \<noteq> NaN \<Longrightarrow> fadd (Fin 0) t \<noteq> NaN"
  by (cases t) (simp_all add: round64_not_NaN)

lemma foldl_zeros_not_NaN:
  "a \<noteq> NaN \<Longrightarrow> list_all (\<lambda>v. v = Fin 0) zs \<Longrightarrow> foldl fadd a zs \<noteq> NaN"
  by (induction zs arbitrary: a) (simp_all add: fadd_zero_not_NaN)

lemma foldl_zeros: "list_all (\<lambda>v. v = Fin 0) zs \<Longrightarrow> foldl fadd (Fin 0) zs = Fin 0"
  by (induction zs) (simp_all add: round64_zero)


lemma fsum_one_term:
  assumes "list_all (\<lambda>v. v = Fin 0) zs1" "list_all (\<lambda>v. v = Fin 0) zs2" "t \<noteq> NaN"
  shows "fsum (zs1 @ t # zs2) \<noteq> NaN"
proof (cases zs1)
  case Nil
  then show ?thesis using assms by (simp add: foldl_zeros_not_NaN)
next
  case (Cons z zs)
  then have "fsum (zs1 @ t # zs2) = foldl fadd (fadd (foldl fadd (Fin 0) zs) t) zs2"
    using assms(1) by simp
  also have "\<dots> = foldl fadd (fadd (Fin 0) t) zs2"
    using assms(1) Cons by (simp add: foldl_zeros)
  finally show ?thesis using assms by (simp add: foldl_zeros_not_NaN fadd_zero_left_not_NaN)
qed

lemma upt_split: "i < p \<Longrightarrow> [0..<p] = [0..<i] @ i # [Suc i..<p]"
proof -
  assume i: "i < p"
  have "[0..<i + (p - i)] = [0..<i] @ [i..<i + (p - i)]" by (rule upt_add_eq_append) simp
  then show ?thesis using i by (simp add: upt_conv_Cons)
qed

lemma fadd_nat:
  assumes "a + b < 2 ^ 53"
  shows "fadd (Fin (real a)) (Fin (real b)) = Fin (real (a + b))"
proof -
  have "fadd (Fin (real a)) (Fin (real b)) = round64 (real (a + b))" by simp
  then show ?thesis using assms by (simp only: round64_nat)
qed

lemma foldl_fadd_nat:
  "a + sum_list ns < 2 ^ 53 \<Longrightarrow>
     foldl fadd (Fin (real a)) (map (\<lambda>n. Fin (real n)) ns) = Fin (real (a + sum_list ns))"
proof (induction ns arbitrary: a)
  case Nil
  then show ?case by simp
next
  case (Cons n ns)
  have "a + n < 2 ^ 53" using Cons.prems by simp
  then have "fadd (Fin (real a)) (Fin (real n)) = Fin (real (a + n))" by (rule fadd_nat)
  then show ?case using Cons.IH [of "a + n"] Cons.prems by (simp add: add.assoc)
qed

lemma fsum_nat:
  "sum_list ns < 2 ^ 53 \<Longrightarrow> fsum (map (\<lambda>n. Fin (real n)) ns) = Fin (real (sum_list ns))"
  by (cases ns) (simp_all add: foldl_fadd_nat)

section \<open>Shapes and failures of the builder\<close>

lemma nrows_mk_arr [simp]: "nrows (mk_arr n m f) = n"
  and ncols_mk_arr [simp]: "ncols (mk_arr n m f) = m"
  by (simp_all add: mk_arr_def)

lemma rectangular_mk_arr [simp]: "rectangular (mk_arr n m f)"
  by (simp add: rectangular_def mk_arr_def list_all_iff)

lemma ent_mk_arr [simp]: "i < n \<Longrightarrow> j < m \<Longrightarrow> ent (mk_arr n m f) i j = f i j"
  by (simp add: ent_def mk_arr_def)

lemma rows_mk_arr: "rows (mk_arr n m f) = map (\<lambda>i. map (f i) [0..<m]) [0..<n]"
  by (simp add: mk_arr_def)

lemma length_degree [simp]: "length (degree W) = ncols W"
  by (simp add: degree_def np_sum_axis0_def)

lemma shape_np_diag [simp]: "nrows (np_diag d) = length d" "ncols (np_diag d) = length d"
  by (simp_all add: np_diag_def)

lemma shape_np_transpose [simp]:
  "nrows (np_transpose A) = ncols A" "ncols (np_transpose A) = nrows A"
  by (simp_all add: np_transpose_def)

lemma laplacian_not_broadcastable:
  assumes "nrows W \<noteq> ncols W" "nrows W \<noteq> 1" "ncols W \<noteq> 1"
  shows "laplacian W = Inl ValueError"
  using assms by (simp add: laplacian_def np_sub_def broadcastable_def)

lemma laplacian_one_row:
  assumes "nrows W = 1"
  shows "\<exists>L. laplacian W = Inr L \<and> nrows L = ncols W \<and> ncols L = ncols W"
  using assms by (simp add: laplacian_def np_sub_def broadcastable_def bdim_def)

lemma laplacian_one_column:
  assumes "ncols W = 1"
  shows "\<exists>L. laplacian W = Inr L \<and> nrows L = nrows W \<and> ncols L = 1"
  using assms by (simp add: laplacian_def np_sub_def broadcastable_def bdim_def)

lemma laplacian_square:
  assumes "nrows W = ncols W"
  shows "\<exists>L. laplacian W = Inr L \<and> nrows L = nrows W \<and> ncols L = nrows W"
  using assms by (simp add: laplacian_def np_sub_def broadcastable_def bdim_def)

lemma spectral_sqrt_shape:
  assumes "length evals = p" "nrows evecs = p" "ncols evecs = p"
  shows "\<exists>S. spectral_sqrt evals evecs = Inr S \<and> nrows S = p \<and> ncols S = p"
  using assms by (simp add: spectral_sqrt_def np_dot_def np_sqrt_def np_maximum0_def)

lemma concat_rows_mk_arr: "0 < n \<Longrightarrow> 0 < m \<Longrightarrow> concat (rows (mk_arr n m f)) \<noteq> []"
  by (auto simp: rows_mk_arr)

lemma np_sub_same_shape:
  assumes "nrows A = n" "ncols A = m" "nrows B = n" "ncols B = m"
  shows "\<exists>f. np_sub A B = Inr (mk_arr n m f)"
  using assms by (auto simp: np_sub_def broadcastable_def bdim_def)

lemma gram_check_prints:
  assumes "nrows S = p" "ncols S = p" "nrows L = p" "ncols L = p" "0 < p"
  shows "\<exists>d. gram_check S L = Inr d"
proof -
  let ?G = "mk_arr p p (\<lambda>i j. fsum (map (\<lambda>l. fmul (ent (np_transpose S) i l) (ent S l j)) [0..<p]))"
  have g: "np_dot (np_transpose S) S = Inr ?G"
    using assms by (simp add: np_dot_def)
  obtain f where d: "np_sub ?G L = Inr (mk_arr p p f)"
    using np_sub_same_shape [of ?G p p L] assms by auto
  obtain x xs where "concat (rows (mk_arr p p f)) = x # xs"
    using concat_rows_mk_arr [OF assms(5) assms(5), of f]
    by (cases "concat (rows (mk_arr p p f))") auto
  then show ?thesis
    by (simp add: gram_check_def g d np_max_abs_def)
qed

lemma gram_check_empty:
  assumes "nrows S = 0" "ncols S = 0" "nrows L = 0" "ncols L = 0"
  shows "gram_check S L = Inl ValueError"
  using assms
  by (simp add: gram_check_def np_dot_def np_sub_def broadcastable_def bdim_def np_max_abs_def
      rows_mk_arr)

text \<open>
  C9, as amended. The builder fails with the eigensolver's own error when the eigensolver
  fails, raised at that statement and not retried. It fails with \<^verbatim>\<open>ValueError\<close> when
  \<open>W\<close> has \<open>n\<close> rows and \<open>m\<close> columns with \<open>n \<noteq> m\<close>, \<open>n \<noteq> 1\<close> and \<open>m \<noteq> 1\<close> (no rows
  included), where \<^verbatim>\<open>np.diag(degree) - W\<close> cannot be broadcast. A \<open>W\<close> of one row is
  broadcast to a square Laplacian and goes on to the eigensolver; a \<open>W\<close> of one column and
  another number of rows gives a Laplacian of one column, which \<^verbatim>\<open>np.linalg.eigh\<close>
  refuses with \<^verbatim>\<open>LinAlgError\<close>. For a square \<open>W\<close>, symmetric or not, the Laplacian
  is built and the builder returns \<open>S\<close> whenever the eigensolver returns. The Gram check
  decides nothing: on arrays of \<open>p \<ge> 1\<close> rows and columns it is a number that is printed,
  whatever it is, and on empty arrays \<^verbatim>\<open>np.max\<close> raises \<^verbatim>\<open>ValueError\<close>.
\<close>

theorem lap_sqrt_failures:
  "(laplacian W = Inr L \<and> np_linalg_eigh solve L = Inl e \<longrightarrow> lap_sqrt solve W = Inl e)
   \<and> (nrows W \<noteq> ncols W \<and> nrows W \<noteq> 1 \<and> ncols W \<noteq> 1 \<longrightarrow>
        laplacian W = Inl ValueError \<and> lap_sqrt solve W = Inl ValueError)
   \<and> (nrows W = 1 \<longrightarrow>
        (\<exists>L1. laplacian W = Inr L1 \<and> nrows L1 = ncols W \<and> ncols L1 = ncols W))
   \<and> (ncols W = 1 \<and> nrows W \<noteq> 1 \<longrightarrow>
        (\<exists>L1. laplacian W = Inr L1 \<and> nrows L1 = nrows W \<and> ncols L1 = 1)
        \<and> lap_sqrt solve W = Inl LinAlgError)
   \<and> (nrows W = ncols W \<longrightarrow>
        (\<exists>L1. laplacian W = Inr L1 \<and> nrows L1 = nrows W \<and> ncols L1 = nrows W
           \<and> (solve L1 = Inr (evals, evecs) \<and> length evals = nrows W
                \<and> nrows evecs = nrows W \<and> ncols evecs = nrows W \<longrightarrow>
               (\<exists>S. lap_sqrt solve W = Inr S \<and> nrows S = nrows W \<and> ncols S = nrows W))))
   \<and> (nrows S0 = p \<and> ncols S0 = p \<and> nrows L0 = p \<and> ncols L0 = p \<and> 0 < p \<longrightarrow>
        (\<exists>d. gram_check S0 L0 = Inr d))
   \<and> (nrows S0 = 0 \<and> ncols S0 = 0 \<and> nrows L0 = 0 \<and> ncols L0 = 0 \<longrightarrow>
        gram_check S0 L0 = Inl ValueError)"
proof (intro conjI impI)
  assume "laplacian W = Inr L \<and> np_linalg_eigh solve L = Inl e"
  then show "lap_sqrt solve W = Inl e" by (simp add: lap_sqrt_def)
next
  assume a: "nrows W \<noteq> ncols W \<and> nrows W \<noteq> 1 \<and> ncols W \<noteq> 1"
  then show "laplacian W = Inl ValueError" by (simp add: laplacian_not_broadcastable)
  then show "lap_sqrt solve W = Inl ValueError" by (simp add: lap_sqrt_def)
next
  assume "nrows W = 1"
  then show "\<exists>L1. laplacian W = Inr L1 \<and> nrows L1 = ncols W \<and> ncols L1 = ncols W"
    by (rule laplacian_one_row)
next
  assume a: "ncols W = 1 \<and> nrows W \<noteq> 1"
  then obtain L1 where l: "laplacian W = Inr L1" "nrows L1 = nrows W" "ncols L1 = 1"
    using laplacian_one_column [of W] by auto
  then show "\<exists>L1. laplacian W = Inr L1 \<and> nrows L1 = nrows W \<and> ncols L1 = 1" by auto
  show "lap_sqrt solve W = Inl LinAlgError"
    using a l by (simp add: lap_sqrt_def np_linalg_eigh_def)
next
  assume a: "nrows W = ncols W"
  then obtain L1 where l: "laplacian W = Inr L1" "nrows L1 = nrows W" "ncols L1 = nrows W"
    using laplacian_square [of W] by auto
  have "\<exists>S. lap_sqrt solve W = Inr S \<and> nrows S = nrows W \<and> ncols S = nrows W"
    if "solve L1 = Inr (evals, evecs) \<and> length evals = nrows W
        \<and> nrows evecs = nrows W \<and> ncols evecs = nrows W"
    using that l spectral_sqrt_shape [of evals "nrows W" evecs]
    by (simp add: lap_sqrt_def np_linalg_eigh_def)
  then show "\<exists>L1. laplacian W = Inr L1 \<and> nrows L1 = nrows W \<and> ncols L1 = nrows W
           \<and> (solve L1 = Inr (evals, evecs) \<and> length evals = nrows W
                \<and> nrows evecs = nrows W \<and> ncols evecs = nrows W \<longrightarrow>
               (\<exists>S. lap_sqrt solve W = Inr S \<and> nrows S = nrows W \<and> ncols S = nrows W))"
    using l by auto
next
  assume "nrows S0 = p \<and> ncols S0 = p \<and> nrows L0 = p \<and> ncols L0 = p \<and> 0 < p"
  then show "\<exists>d. gram_check S0 L0 = Inr d" by (auto intro: gram_check_prints)
next
  assume "nrows S0 = 0 \<and> ncols S0 = 0 \<and> nrows L0 = 0 \<and> ncols L0 = 0"
  then show "gram_check S0 L0 = Inl ValueError" by (auto intro: gram_check_empty)
qed

lemmas eval_np = arr_def mk_arr_def ent_def np_sum_axis0_def np_diag_def np_sub_def
  np_transpose_def np_dot_def np_maximum0_def np_sqrt_def np_max_abs_def broadcastable_def
  bdim_def bidx_def np_linalg_eigh_def degree_def laplacian_def spectral_sqrt_def lap_sqrt_def
  gram_check_def upt_rec

theorem lap_sqrt_failures_witness:
  "laplacian (arr 2 2 [[0, 1], [1, 0]]) = Inr (arr 2 2 [[1, - 1], [- 1, 1]])
   \<and> lap_sqrt (\<lambda>L. Inl LinAlgError) (arr 2 2 [[0, 1], [1, 0]]) = Inl LinAlgError
   \<and> lap_sqrt (\<lambda>L. Inl LinAlgError) (arr 2 3 [[0, 1, 0], [1, 0, 0]]) = Inl ValueError
   \<and> lap_sqrt (\<lambda>L. Inl LinAlgError) (arr 0 3 []) = Inl ValueError
   \<and> laplacian (arr 1 2 [[0, 1]]) = Inr (arr 2 2 [[0, - 1], [0, 0]])
   \<and> laplacian (arr 2 1 [[0], [1]]) = Inr (arr 2 1 [[1], [0]])
   \<and> lap_sqrt (\<lambda>L. Inr ([], arr 0 0 [])) (arr 2 1 [[0], [1]]) = Inl LinAlgError
   \<and> lap_sqrt (\<lambda>L. Inr ([Fin 0, Fin 1], arr 2 2 [[1, 0], [0, 1]])) (arr 2 2 [[0, 1], [0, 0]])
       = Inr (arr 2 2 [[0, 0], [0, 1]])
   \<and> gram_check (arr 2 2 [[0, 0], [0, 1]]) (arr 2 2 [[0, - 1], [0, 1]]) = Inr (Fin 1)
   \<and> gram_check (arr 0 0 []) (arr 0 0 []) = Inl ValueError"
  using
    lap_sqrt_failures [where W = "arr 2 2 [[0, 1], [1, 0]]" and L = "arr 2 2 [[1, - 1], [- 1, 1]]"
      and solve = "\<lambda>L. Inl LinAlgError" and e = LinAlgError and evals = "[]"
      and evecs = "arr 0 0 []" and ?S0.0 = "arr 2 2 [[0, 0], [0, 1]]"
      and ?L0.0 = "arr 2 2 [[0, - 1], [0, 1]]" and p = 2]
    lap_sqrt_failures [where W = "arr 0 3 []" and L = "arr 0 0 []"
      and solve = "\<lambda>L. Inl LinAlgError" and e = LinAlgError and evals = "[]"
      and evecs = "arr 0 0 []" and ?S0.0 = "arr 0 0 []" and ?L0.0 = "arr 0 0 []" and p = 0]
    lap_sqrt_failures [where W = "arr 1 2 [[0, 1]]" and L = "arr 0 0 []"
      and solve = "\<lambda>L. Inl LinAlgError" and e = LinAlgError and evals = "[]"
      and evecs = "arr 0 0 []" and ?S0.0 = "arr 0 0 []" and ?L0.0 = "arr 0 0 []" and p = 0]
    lap_sqrt_failures [where W = "arr 2 1 [[0], [1]]" and L = "arr 0 0 []"
      and solve = "\<lambda>L. Inr ([], arr 0 0 [])" and e = LinAlgError and evals = "[]"
      and evecs = "arr 0 0 []" and ?S0.0 = "arr 0 0 []" and ?L0.0 = "arr 0 0 []" and p = 0]
    lap_sqrt_failures [where W = "arr 2 2 [[0, 1], [0, 0]]" and L = "arr 0 0 []"
      and solve = "\<lambda>L. Inr ([Fin 0, Fin 1], arr 2 2 [[1, 0], [0, 1]])" and e = LinAlgError
      and evals = "[Fin 0, Fin 1]" and evecs = "arr 2 2 [[1, 0], [0, 1]]"
      and ?S0.0 = "arr 0 0 []" and ?L0.0 = "arr 0 0 []" and p = 0]
  by (simp add: eval_np f64)

text \<open>
  C9 as stated fails. \<open>W = [[0, 1], [0, 0]]\<close> is square and not symmetric; its Laplacian
  is \<open>[[0, -1], [0, 1]]\<close>, of which the eigensolver reads the lower triangle only and
  returns the eigenvalues \<open>0, 1\<close> with the identity as eigenvectors. The builder returns
  \<open>S = [[0, 0], [0, 1]]\<close> and raises nothing, although \<open>W\<close> is not symmetric and the check
  prints \<open>1\<close>. \<open>W = [[0, 1]]\<close> is not square and raises nothing either: it is broadcast
  to the Laplacian \<open>[[0, -1], [0, 0]]\<close>.
\<close>

theorem lap_sqrt_accepts_asymmetric_counterexample:
  "np_transpose (arr 2 2 [[0, 1], [0, 0]]) \<noteq> arr 2 2 [[0, 1], [0, 0]]
   \<and> laplacian (arr 2 2 [[0, 1], [0, 0]]) = Inr (arr 2 2 [[0, - 1], [0, 1]])
   \<and> lap_sqrt (\<lambda>L. Inr ([Fin 0, Fin 1], arr 2 2 [[1, 0], [0, 1]])) (arr 2 2 [[0, 1], [0, 0]])
       = Inr (arr 2 2 [[0, 0], [0, 1]])
   \<and> gram_check (arr 2 2 [[0, 0], [0, 1]]) (arr 2 2 [[0, - 1], [0, 1]]) = Inr (Fin 1)
   \<and> laplacian (arr 1 2 [[0, 1]]) = Inr (arr 2 2 [[0, - 1], [0, 0]])
   \<and> lap_sqrt (\<lambda>L. Inr ([Fin 0, Fin 0], arr 2 2 [[1, 0], [0, 1]])) (arr 1 2 [[0, 1]])
       = Inr (arr 2 2 [[0, 0], [0, 0]])"
  by (simp add: eval_np f64)

lemma mk_arr_cong:
  assumes "\<And>i j. i < n \<Longrightarrow> j < m \<Longrightarrow> f i j = g i j"
  shows "mk_arr n m f = mk_arr n m g"
  using assms by (simp add: mk_arr_def)

lemma bidx_less [simp]: "i < n \<Longrightarrow> bidx n i = i"
  by (simp add: bidx_def)

lemma bdim_same [simp]: "bdim n n = n"
  by (simp add: bdim_def)


section \<open>The Laplacian\<close>

text \<open>The quadratic form of a Laplacian is a sum of squares.\<close>

lemma quad_identity:
  fixes w :: "nat \<Rightarrow> nat \<Rightarrow> real" and x :: "nat \<Rightarrow> real"
  assumes sym: "\<And>i j. i < p \<Longrightarrow> j < p \<Longrightarrow> w i j = w j i"
  shows "(\<Sum>i<p. \<Sum>j<p. w i j * (x i - x j)\<^sup>2)
       = 2 * (\<Sum>i<p. x i * ((\<Sum>k<p. w k i) * x i - (\<Sum>j<p. w i j * x j)))"
proof -
  let ?d = "\<lambda>i. \<Sum>k<p. w k i"
  let ?c = "\<Sum>i<p. \<Sum>j<p. w i j * x i * x j"
  have A: "(\<Sum>i<p. \<Sum>j<p. w i j * (x i)\<^sup>2) = (\<Sum>i<p. ?d i * (x i)\<^sup>2)"
  proof (rule sum.cong [OF refl])
    fix i assume "i \<in> {..<p}"
    then have "(\<Sum>j<p. w i j) = ?d i"
      by (intro sum.cong refl) (simp add: sym)
    then show "(\<Sum>j<p. w i j * (x i)\<^sup>2) = ?d i * (x i)\<^sup>2"
      by (simp add: sum_distrib_right [symmetric])
  qed
  have B: "(\<Sum>i<p. \<Sum>j<p. w i j * (x j)\<^sup>2) = (\<Sum>j<p. ?d j * (x j)\<^sup>2)"
    by (subst sum.swap) (simp add: sum_distrib_right [symmetric])
  have "(\<Sum>i<p. \<Sum>j<p. w i j * (x i - x j)\<^sup>2)
      = (\<Sum>i<p. \<Sum>j<p. (w i j * (x i)\<^sup>2 - 2 * (w i j * x i * x j)) + w i j * (x j)\<^sup>2)"
    by (intro sum.cong refl) (simp add: power2_diff algebra_simps)
  also have "\<dots> = (\<Sum>i<p. \<Sum>j<p. w i j * (x i)\<^sup>2) - 2 * ?c + (\<Sum>i<p. \<Sum>j<p. w i j * (x j)\<^sup>2)"
    by (simp add: sum.distrib sum_subtractf sum_distrib_left)
  also have "\<dots> = 2 * (\<Sum>i<p. ?d i * (x i)\<^sup>2) - 2 * ?c"
    by (simp add: A B)
  also have "\<dots> = 2 * ((\<Sum>i<p. ?d i * (x i)\<^sup>2) - ?c)"
    by simp
  also have "(\<Sum>i<p. ?d i * (x i)\<^sup>2) - ?c
      = (\<Sum>i<p. x i * (?d i * x i - (\<Sum>j<p. w i j * x j)))"
    by (simp add: sum_subtractf [symmetric] sum_distrib_left power2_eq_square algebra_simps)
  finally show ?thesis .
qed

lemma quad_nonneg:
  fixes w :: "nat \<Rightarrow> nat \<Rightarrow> real" and x :: "nat \<Rightarrow> real"
  assumes sym: "\<And>i j. i < p \<Longrightarrow> j < p \<Longrightarrow> w i j = w j i"
    and nn: "\<And>i j. i < p \<Longrightarrow> j < p \<Longrightarrow> 0 \<le> w i j"
  shows "0 \<le> (\<Sum>i<p. x i * ((\<Sum>k<p. w k i) * x i - (\<Sum>j<p. w i j * x j)))"
proof -
  have "0 \<le> (\<Sum>i<p. \<Sum>j<p. w i j * (x i - x j)\<^sup>2)"
    by (intro sum_nonneg mult_nonneg_nonneg) (simp_all add: nn)
  then show ?thesis
    by (simp add: quad_identity [OF sym])
qed

lemma adjacency_entry:
  assumes "adjacency p W" "i < p" "j < p"
  shows "ent W i j = Fin (val (ent W i j))" "round64 (val (ent W i j)) = Fin (val (ent W i j))"
    "0 \<le> val (ent W i j)"
proof -
  have "is_float64 (ent W i j) \<and> 0 \<le> val (ent W i j)"
    using assms by (simp add: adjacency_def rectangular_def list_all_length ent_def)
  then show "ent W i j = Fin (val (ent W i j))" "round64 (val (ent W i j)) = Fin (val (ent W i j))"
    "0 \<le> val (ent W i j)"
    by (cases "ent W i j"; simp add: is_float64_def val_def)+
qed

lemma adjacency_symmetric:
  assumes "adjacency p W" "i < p" "j < p"
  shows "ent W i j = ent W j i"
proof -
  have "ent (np_transpose W) i j = ent W j i"
    using assms by (simp add: np_transpose_def adjacency_def)
  then show ?thesis using assms(1) by (simp add: adjacency_def)
qed

lemma adjacency_diagonal: "adjacency p W \<Longrightarrow> i < p \<Longrightarrow> ent W i i = Fin 0"
  by (simp add: adjacency_def list_all_iff)

lemma laplacian_entries:
  assumes adj: "adjacency p W" and ex: "exact_degree W"
  shows "laplacian W
       = Inr (mk_arr p p (\<lambda>i j. Fin ((if i = j then column_sum W j else 0) - val (ent W i j))))"
proof -
  have shape: "nrows W = p" "ncols W = p" using adj by (simp_all add: adjacency_def)
  have deg: "degree W ! i = Fin (column_sum W i)"
    "round64 (column_sum W i) = Fin (column_sum W i)" if "i < p" for i
  proof -
    have "degree W ! i = map (\<lambda>j. Fin (column_sum W j)) [0..<p] ! i"
      using ex shape by (simp add: exact_degree_def)
    then show d: "degree W ! i = Fin (column_sum W i)" using that by simp
    have "list_all is_float64 (degree W)" using ex unfolding exact_degree_def by (rule conjunct2)
    then have "is_float64 (degree W ! i)"
      using that shape by (simp add: list_all_length)
    then show "round64 (column_sum W i) = Fin (column_sum W i)"
      by (simp add: d is_float64_def)
  qed
  have "mk_arr p p (\<lambda>i j. fsub (ent (np_diag (degree W)) (bidx p i) (bidx p j))
                              (ent W (bidx p i) (bidx p j)))
      = mk_arr p p (\<lambda>i j. Fin ((if i = j then column_sum W j else 0) - val (ent W i j)))"
  proof (rule mk_arr_cong)
    fix i j assume i: "i < p" and j: "j < p"
    show "fsub (ent (np_diag (degree W)) (bidx p i) (bidx p j)) (ent W (bidx p i) (bidx p j))
        = Fin ((if i = j then column_sum W j else 0) - val (ent W i j))"
    proof (cases "i = j")
      case True
      then show ?thesis
        using i shape deg [OF i] adjacency_diagonal [OF adj i]
        by (simp add: np_diag_def fsub_def val_def)
    next
      case False
      have "fsub (Fin 0) (ent W i j) = fadd (Fin 0) (fneg (Fin (val (ent W i j))))"
        using adjacency_entry(1) [OF adj i j] by (simp add: fsub_def)
      also have "\<dots> = round64 (- val (ent W i j))" by simp
      also have "\<dots> = Fin (- val (ent W i j))"
        using adjacency_entry(2) [OF adj i j] by (simp add: round64_minus)
      finally show ?thesis using False i j shape by (simp add: np_diag_def)
    qed
  qed
  then show ?thesis
    using shape by (simp add: laplacian_def np_sub_def broadcastable_def)
qed

lemma laplacian_row_sum:
  assumes adj: "adjacency p W" and i: "i < p"
  shows "row_sum (mk_arr p p (\<lambda>i j. Fin ((if i = j then column_sum W j else 0)
                                         - val (ent W i j)))) i = 0"
proof -
  have shape: "nrows W = p" "ncols W = p" using adj by (simp_all add: adjacency_def)
  have "row_sum (mk_arr p p (\<lambda>i j. Fin ((if i = j then column_sum W j else 0)
                                         - val (ent W i j)))) i
      = (\<Sum>j<p. (if i = j then column_sum W j else 0) - val (ent W i j))"
    using i by (simp add: row_sum_def val_def)
  also have "\<dots> = column_sum W i - (\<Sum>j<p. val (ent W i j))"
    using i by (simp add: sum_subtractf)
  also have "column_sum W i = (\<Sum>j<p. val (ent W i j))"
    unfolding column_sum_def shape
    using i by (intro sum.cong refl) (simp add: adjacency_symmetric [OF adj])
  finally show ?thesis by simp
qed

lemma laplacian_quad_form:
  assumes adj: "adjacency p W"
  shows "0 \<le> quad_form (mk_arr p p (\<lambda>i j. Fin ((if i = j then column_sum W j else 0)
                                         - val (ent W i j)))) x"
proof -
  let ?w = "\<lambda>i j. val (ent W i j)"
  let ?x = "\<lambda>i. x ! i"
  have shape: "nrows W = p" "ncols W = p" using adj by (simp_all add: adjacency_def)
  have "quad_form (mk_arr p p (\<lambda>i j. Fin ((if i = j then column_sum W j else 0) - ?w i j))) x
      = (\<Sum>i<p. \<Sum>j<p. ?x i * ((if i = j then column_sum W j else 0) - ?w i j) * ?x j)"
    by (simp add: quad_form_def val_def)
  also have "\<dots> = (\<Sum>i<p. ?x i * ((\<Sum>k<p. ?w k i) * ?x i - (\<Sum>j<p. ?w i j * ?x j)))"
  proof (intro sum.cong refl)
    fix i assume "i \<in> {..<p}"
    then have i: "i < p" by simp
    have "(\<Sum>j<p. ?x i * ((if i = j then column_sum W j else 0) - ?w i j) * ?x j)
        = (\<Sum>j<p. ?x i * ((if i = j then column_sum W j * ?x j else 0) - ?w i j * ?x j))"
      by (intro sum.cong refl) (simp add: algebra_simps)
    also have "\<dots> = ?x i * (\<Sum>j<p. (if i = j then column_sum W j * ?x j else 0) - ?w i j * ?x j)"
      by (simp only: sum_distrib_left)
    also have "(\<Sum>j<p. (if i = j then column_sum W j * ?x j else 0) - ?w i j * ?x j)
        = column_sum W i * ?x i - (\<Sum>j<p. ?w i j * ?x j)"
      using i by (simp add: sum_subtractf)
    finally show "(\<Sum>j<p. ?x i * ((if i = j then column_sum W j else 0) - ?w i j) * ?x j)
        = ?x i * ((\<Sum>k<p. ?w k i) * ?x i - (\<Sum>j<p. ?w i j * ?x j))"
      by (simp add: column_sum_def shape)
  qed
  also have "0 \<le> \<dots>"
    by (rule quad_nonneg)
       (simp_all add: adjacency_symmetric [OF adj] adjacency_entry(3) [OF adj])
  finally show ?thesis .
qed

lemma nat_weights_exact_degree:
  assumes W: "rectangular W" "nrows W = p" "ncols W = p"
    and nat: "list_all (list_all nat_valued) (rows W)"
    and bound: "list_all (\<lambda>j. column_sum W j < 2 ^ 53) [0..<p]"
  shows "exact_degree W"
proof -
  define n where "n i j = nat \<lfloor>val (ent W i j)\<rfloor>" for i j
  have E: "ent W i j = Fin (real (n i j))" if "i < p" "j < p" for i j
  proof -
    have "nat_valued (rows W ! i ! j)"
      using W nat that by (simp add: rectangular_def list_all_length)
    then show ?thesis
      by (cases "rows W ! i ! j") (simp_all add: nat_valued_def n_def ent_def val_def)
  qed
  have D: "fsum (map (\<lambda>r. r ! j) (rows W)) = Fin (column_sum W j)
         \<and> is_float64 (Fin (column_sum W j))" if j: "j < p" for j
  proof -
    let ?ns = "map (\<lambda>i. n i j) [0..<p]"
    have "map (\<lambda>r. r ! j) (rows W) = map (\<lambda>i. Fin (real (n i j))) [0..<p]"
      using W(1,2) E j by (intro nth_equalityI) (simp_all add: rectangular_def ent_def)
    then have col: "map (\<lambda>r. r ! j) (rows W) = map (\<lambda>m. Fin (real m)) ?ns"
      by (simp add: comp_def)
    have "column_sum W j = (\<Sum>i<p. real (n i j))"
      unfolding column_sum_def W(2) using E j by (intro sum.cong refl) (simp add: val_def)
    also have "\<dots> = real (sum_list ?ns)"
      by (simp add: interv_sum_list_conv_sum_set_nat atLeast0LessThan)
    finally have c: "column_sum W j = real (sum_list ?ns)" .
    have "column_sum W j < 2 ^ 53" using bound j by (simp add: list_all_iff)
    then have "real (sum_list ?ns) < real (2 ^ 53)" by (simp add: c)
    then have small: "sum_list ?ns < 2 ^ 53" by (simp only: of_nat_less_iff)
    have f: "fsum (map (\<lambda>m. Fin (real m)) ?ns) = Fin (real (sum_list ?ns))"
      using small by (rule fsum_nat)
    have r: "round64 (real (sum_list ?ns)) = Fin (real (sum_list ?ns))"
      using small by (rule round64_nat)
    show ?thesis
      unfolding col c is_float64_def using f r by simp
  qed
  have "degree W = map (\<lambda>j. Fin (column_sum W j)) [0..<ncols W]"
    unfolding degree_def np_sum_axis0_def W(3) using D by (intro map_cong refl) simp
  moreover have "list_all is_float64 (map (\<lambda>j. Fin (column_sum W j)) [0..<ncols W])"
    unfolding W(3) using D by (simp add: list_all_iff)
  ultimately show ?thesis by (simp add: exact_degree_def)
qed

text \<open>
  C3, as amended. Let \<open>W\<close> be a symmetric \<open>p \<times> p\<close> array of float64 numbers that are not
  negative, with a zero diagonal. If \<^verbatim>\<open>np.sum(W, axis=0)\<close> has not rounded, the
  Laplacian \<open>L = diag(degree) - W\<close> is computed without error: every row of \<open>L\<close> sums to
  zero and \<open>x\<^sup>T L x \<ge> 0\<close> for every \<open>x\<close>, so that \<open>L\<close> is positive semidefinite. The sums
  do not round when the weights are natural numbers and every column sums to less than
  \<open>2\<^sup>5\<^sup>3\<close>, which is so for the 0/1 adjacency matrix that the notebook builds.
\<close>

theorem laplacian_invariant:
  assumes "adjacency p W"
  shows "(exact_degree W \<longrightarrow>
            (\<exists>L. laplacian W = Inr L \<and> rectangular L \<and> nrows L = p \<and> ncols L = p
               \<and> list_all (\<lambda>i. row_sum L i = 0) [0..<p]
               \<and> (\<forall>x. 0 \<le> quad_form L x)))
       \<and> (list_all (list_all nat_valued) (rows W)
            \<and> list_all (\<lambda>j. column_sum W j < 2 ^ 53) [0..<p]
          \<longrightarrow> exact_degree W)"
proof (intro conjI impI)
  assume ex: "exact_degree W"
  let ?L = "mk_arr p p (\<lambda>i j. Fin ((if i = j then column_sum W j else 0) - val (ent W i j)))"
  have "laplacian W = Inr ?L" using assms ex by (rule laplacian_entries)
  moreover have "list_all (\<lambda>i. row_sum ?L i = 0) [0..<p]"
    using laplacian_row_sum [OF assms] by (simp add: list_all_iff)
  moreover have "\<forall>x. 0 \<le> quad_form ?L x"
    using laplacian_quad_form [OF assms] by blast
  ultimately show "\<exists>L. laplacian W = Inr L \<and> rectangular L \<and> nrows L = p \<and> ncols L = p
               \<and> list_all (\<lambda>i. row_sum L i = 0) [0..<p]
               \<and> (\<forall>x. 0 \<le> quad_form L x)"
    by simp
next
  assume "list_all (list_all nat_valued) (rows W)
            \<and> list_all (\<lambda>j. column_sum W j < 2 ^ 53) [0..<p]"
  then show "exact_degree W"
    using assms by (intro nat_weights_exact_degree [of W p]) (simp_all add: adjacency_def)
qed

lemmas eval_sums = column_sum_def row_sum_def quad_form_def val_def is_float64_def
  nat_valued_def adjacency_def exact_degree_def rectangular_def lessThan_Suc numeral_3_eq_3

theorem laplacian_invariant_witness:
  "adjacency 3 (arr 3 3 [[0, 1, 0], [1, 0, 1], [0, 1, 0]])
   \<and> list_all (list_all nat_valued) (rows (arr 3 3 [[0, 1, 0], [1, 0, 1], [0, 1, 0]]))
   \<and> map (column_sum (arr 3 3 [[0, 1, 0], [1, 0, 1], [0, 1, 0]])) [0..<3] = [1, 2, 1]
   \<and> list_all (\<lambda>j. column_sum (arr 3 3 [[0, 1, 0], [1, 0, 1], [0, 1, 0]]) j < 2 ^ 53) [0..<3]
   \<and> exact_degree (arr 3 3 [[0, 1, 0], [1, 0, 1], [0, 1, 0]])
   \<and> laplacian (arr 3 3 [[0, 1, 0], [1, 0, 1], [0, 1, 0]])
       = Inr (arr 3 3 [[1, - 1, 0], [- 1, 2, - 1], [0, - 1, 1]])
   \<and> map (row_sum (arr 3 3 [[1, - 1, 0], [- 1, 2, - 1], [0, - 1, 1]])) [0..<3] = [0, 0, 0]
   \<and> quad_form (arr 3 3 [[1, - 1, 0], [- 1, 2, - 1], [0, - 1, 1]]) [1, - 1, 2] = 13"
  using laplacian_invariant [where p = 3 and W = "arr 3 3 [[0, 1, 0], [1, 0, 1], [0, 1, 0]]"]
  by (simp add: eval_np f64 eval_sums)

text \<open>
  C3 as stated fails. \<open>W = [[0, 10\<^sup>1\<^sup>6, 1], [10\<^sup>1\<^sup>6, 0, 1], [1, 1, 0]]\<close> is symmetric, not
  negative and has a zero diagonal. The sum \<open>10\<^sup>1\<^sup>6 + 1\<close> of its first column is not a
  float64 number and is rounded to \<open>10\<^sup>1\<^sup>6\<close>, so that the first row of \<open>L\<close> is
  \<open>[10\<^sup>1\<^sup>6, -10\<^sup>1\<^sup>6, -1]\<close>: it sums to \<open>-1\<close>, and \<open>x\<^sup>T L x = -2\<close> at the vector of ones.
\<close>

theorem laplacian_rounded_degree_counterexample:
  "adjacency 3 (arr 3 3 [[0, 10 ^ 16, 1], [10 ^ 16, 0, 1], [1, 1, 0]])
   \<and> laplacian (arr 3 3 [[0, 10 ^ 16, 1], [10 ^ 16, 0, 1], [1, 1, 0]])
       = Inr (arr 3 3 [[10 ^ 16, - (10 ^ 16), - 1], [- (10 ^ 16), 10 ^ 16, - 1], [- 1, - 1, 2]])
   \<and> row_sum (arr 3 3 [[10 ^ 16, - (10 ^ 16), - 1], [- (10 ^ 16), 10 ^ 16, - 1], [- 1, - 1, 2]]) 0
       = - 1
   \<and> quad_form (arr 3 3 [[10 ^ 16, - (10 ^ 16), - 1], [- (10 ^ 16), 10 ^ 16, - 1], [- 1, - 1, 2]])
        [1, 1, 1] = - 2"
  by (simp add: eval_np f64 eval_sums)

section \<open>The clamp and the square root\<close>

lemma spectral_entry_not_NaN:
  assumes i: "i < p" and j: "j < p" and d: "length d = p" "d ! i = Fin y"
    and E: "nrows E = p" "ncols E = p" "\<And>l. l < p \<Longrightarrow> \<exists>u. ent E j l = Fin u"
  shows "fsum (map (\<lambda>l. fmul (ent (np_diag d) i l) (ent (np_transpose E) l j)) [0..<p]) \<noteq> NaN"
proof -
  obtain u where u: "ent E j i = Fin u" using E(3) i by blast
  let ?t = "fmul (Fin y) (Fin u)"
  have "map (\<lambda>l. fmul (ent (np_diag d) i l) (ent (np_transpose E) l j)) [0..<p]
      = map (\<lambda>l. if l = i then ?t else Fin 0) [0..<p]"
  proof (rule map_cong [OF refl])
    fix l assume "l \<in> set [0..<p]"
    then have l: "l < p" by simp
    obtain v where v: "ent E j l = Fin v" using E(3) l by blast
    show "fmul (ent (np_diag d) i l) (ent (np_transpose E) l j) = (if l = i then ?t else Fin 0)"
      using i j l d E(1,2) u v by (auto simp: np_diag_def np_transpose_def round64_zero)
  qed
  also have "\<dots> = map (\<lambda>l. if l = i then ?t else Fin 0) [0..<i] @ ?t
                  # map (\<lambda>l. if l = i then ?t else Fin 0) [Suc i..<p]"
    by (subst upt_split [OF i]) simp
  finally show ?thesis
    by (simp only: ) (rule fsum_one_term, simp_all add: list_all_iff round64_not_NaN)
qed

lemma finite64_nth:
  assumes "rectangular E" "list_all (list_all finite64) (rows E)" "j < nrows E" "l < ncols E"
  shows "\<exists>u. ent E j l = Fin u"
proof -
  have "finite64 (rows E ! j ! l)"
    using assms by (simp add: rectangular_def list_all_length)
  then show ?thesis by (cases "rows E ! j ! l") (simp_all add: finite64_def ent_def)
qed

lemma clamped_sqrt_finite:
  assumes "finite64 v"
  shows "\<exists>y. fsqrt (fmax0 v) = Fin y"
proof -
  obtain x where x: "v = Fin x" "\<bar>x\<bar> < 2 ^ 1024"
    using assms by (cases v) (simp_all add: finite64_def)
  have "\<exists>y. round64 (sqrt (max 0 x)) = Fin y"
    using x(2) by (intro sqrt_is_finite) simp_all
  then show ?thesis by (simp add: x(1))
qed

lemma spectral_sqrt_no_nan:
  assumes ev: "list_all finite64 evals"
    and E: "rectangular evecs" "nrows evecs = length evals" "ncols evecs = length evals"
      "list_all (list_all finite64) (rows evecs)"
  shows "\<exists>S. spectral_sqrt evals evecs = Inr S \<and> nrows S = length evals
           \<and> ncols S = length evals \<and> no_nan S"
proof -
  let ?p = "length evals"
  let ?d = "np_sqrt (np_maximum0 evals)"
  let ?S = "mk_arr ?p ?p
     (\<lambda>i j. fsum (map (\<lambda>l. fmul (ent (np_diag ?d) i l) (ent (np_transpose evecs) l j)) [0..<?p]))"
  have len: "length ?d = ?p" by (simp add: np_sqrt_def np_maximum0_def)
  have S: "spectral_sqrt evals evecs = Inr ?S"
    using E(2,3) len by (simp add: spectral_sqrt_def np_dot_def)
  have "ent ?S i j \<noteq> NaN" if "i < ?p" "j < ?p" for i j
  proof -
    have "finite64 (evals ! i)" using ev that(1) by (simp add: list_all_length)
    then obtain y where "fsqrt (fmax0 (evals ! i)) = Fin y"
      using clamped_sqrt_finite by blast
    then have y: "?d ! i = Fin y" using that(1) by (simp add: np_sqrt_def np_maximum0_def)
    have "\<exists>u. ent evecs j l = Fin u" if "l < ?p" for l
      using E that \<open>j < ?p\<close> by (intro finite64_nth) simp_all
    then show ?thesis
      using that y len E(2,3) by (simp add: spectral_entry_not_NaN)
  qed
  then have "no_nan ?S"
    by (simp add: no_nan_def rows_mk_arr list_all_iff)
  then show ?thesis using S by simp
qed

text \<open>
  C4, as amended. After \<^verbatim>\<open>np.maximum(0, evals)\<close> no eigenvalue is negative, so
  \<^verbatim>\<open>np.sqrt\<close> is never applied to a negative number, and an entry of the vector of
  square roots is NaN exactly where the eigensolver returned NaN: the clamp does not
  remove a NaN. When the eigensolver returns finite eigenvalues and eigenvectors with
  finite components, the builder returns \<open>S\<close>, of shape \<open>p \<times> p\<close>, and no entry of \<open>S\<close> is
  NaN.
\<close>

theorem clamp_before_sqrt:
  "list_all (\<lambda>v. \<not> negative v) (np_maximum0 evals)
   \<and> map (\<lambda>v. v = NaN) (np_sqrt (np_maximum0 evals)) = map (\<lambda>v. v = NaN) evals
   \<and> (laplacian W = Inr L \<and> np_linalg_eigh solve L = Inr (evals, evecs)
        \<and> list_all finite64 evals \<and> rectangular evecs \<and> nrows evecs = length evals
        \<and> ncols evecs = length evals \<and> list_all (list_all finite64) (rows evecs)
      \<longrightarrow> (\<exists>S. lap_sqrt solve W = Inr S \<and> nrows S = length evals \<and> ncols S = length evals
                \<and> no_nan S))"
proof (intro conjI impI)
  have "\<not> negative (fmax0 v)" for v by (cases v) (simp_all add: negative_def)
  then show "list_all (\<lambda>v. \<not> negative v) (np_maximum0 evals)"
    by (simp add: np_maximum0_def list_all_iff)
next
  have "fsqrt (fmax0 v) = NaN \<longleftrightarrow> v = NaN" for v
    by (cases v) (simp_all add: round64_not_NaN)
  then show "map (\<lambda>v. v = NaN) (np_sqrt (np_maximum0 evals)) = map (\<lambda>v. v = NaN) evals"
    by (simp add: np_sqrt_def np_maximum0_def)
next
  assume a: "laplacian W = Inr L \<and> np_linalg_eigh solve L = Inr (evals, evecs)
        \<and> list_all finite64 evals \<and> rectangular evecs \<and> nrows evecs = length evals
        \<and> ncols evecs = length evals \<and> list_all (list_all finite64) (rows evecs)"
  then have "lap_sqrt solve W = spectral_sqrt evals evecs" by (simp add: lap_sqrt_def)
  then show "\<exists>S. lap_sqrt solve W = Inr S \<and> nrows S = length evals \<and> ncols S = length evals
                \<and> no_nan S"
    using a spectral_sqrt_no_nan [of evals evecs] by simp
qed

theorem clamp_before_sqrt_witness:
  "laplacian (arr 2 2 [[0, 2], [2, 0]]) = Inr (arr 2 2 [[2, - 2], [- 2, 2]])
   \<and> np_maximum0 [Fin (- 1 / 2 ^ 51), Fin 4] = [Fin 0, Fin 4]
   \<and> np_sqrt [Fin 0, Fin 4] = [Fin 0, Fin 2]
   \<and> list_all finite64 [Fin (- 1 / 2 ^ 51), Fin 4]
   \<and> lap_sqrt (\<lambda>L. Inr ([Fin (- 1 / 2 ^ 51), Fin 4],
          arr 2 2 [[3184525836262886 / 2 ^ 52, 3184525836262886 / 2 ^ 52],
                   [3184525836262886 / 2 ^ 52, - 3184525836262886 / 2 ^ 52]]))
        (arr 2 2 [[0, 2], [2, 0]])
       = Inr (arr 2 2 [[0, 0], [6369051672525772 / 2 ^ 52, - 6369051672525772 / 2 ^ 52]])
   \<and> no_nan (arr 2 2 [[0, 0], [6369051672525772 / 2 ^ 52, - 6369051672525772 / 2 ^ 52]])"
  using clamp_before_sqrt [where evals = "[Fin (- 1 / 2 ^ 51), Fin 4]"
      and W = "arr 2 2 [[0, 2], [2, 0]]" and L = "arr 2 2 [[2, - 2], [- 2, 2]]"
      and solve = "\<lambda>L. Inr ([Fin (- 1 / 2 ^ 51), Fin 4],
          arr 2 2 [[3184525836262886 / 2 ^ 52, 3184525836262886 / 2 ^ 52],
                   [3184525836262886 / 2 ^ 52, - 3184525836262886 / 2 ^ 52]])"
      and evecs = "arr 2 2 [[3184525836262886 / 2 ^ 52, 3184525836262886 / 2 ^ 52],
                   [3184525836262886 / 2 ^ 52, - 3184525836262886 / 2 ^ 52]]"]
  by (simp add: eval_np f64 round_pos_sqrt2 [simplified] no_nan_def finite64_def negative_def rectangular_def)

text \<open>
  C4 as stated fails. \<^verbatim>\<open>np.maximum(0, nan)\<close> is \<open>nan\<close>. The adjacency matrix of the
  triangle with the weight \<open>2\<^sup>1\<^sup>0\<^sup>2\<^sup>3\<close> on every edge is finite, and its degrees overflow: the
  diagonal of \<open>L\<close> is infinite. \<^verbatim>\<open>np.linalg.eigh\<close> does not look for infinite entries,
  and LAPACK returns NaN for such an array; every entry of \<open>S\<close> is then NaN.
\<close>

theorem clamp_keeps_nan_counterexample:
  "np_sqrt (np_maximum0 [NaN, NaN, NaN]) = [NaN, NaN, NaN]
   \<and> list_all finite64 (concat (rows (arr 3 3
        [[0, 2 ^ 1023, 2 ^ 1023], [2 ^ 1023, 0, 2 ^ 1023], [2 ^ 1023, 2 ^ 1023, 0]])))
   \<and> laplacian (arr 3 3 [[0, 2 ^ 1023, 2 ^ 1023], [2 ^ 1023, 0, 2 ^ 1023], [2 ^ 1023, 2 ^ 1023, 0]])
       = Inr \<lparr>nrows = 3, ncols = 3,
               rows = [[PInf, Fin (- (2 ^ 1023)), Fin (- (2 ^ 1023))],
                       [Fin (- (2 ^ 1023)), PInf, Fin (- (2 ^ 1023))],
                       [Fin (- (2 ^ 1023)), Fin (- (2 ^ 1023)), PInf]]\<rparr>
   \<and> lap_sqrt (\<lambda>L. Inr ([NaN, NaN, NaN],
          \<lparr>nrows = 3, ncols = 3, rows = [[NaN, NaN, NaN], [NaN, NaN, NaN], [NaN, NaN, NaN]]\<rparr>))
        (arr 3 3 [[0, 2 ^ 1023, 2 ^ 1023], [2 ^ 1023, 0, 2 ^ 1023], [2 ^ 1023, 2 ^ 1023, 0]])
       = Inr \<lparr>nrows = 3, ncols = 3, rows = [[NaN, NaN, NaN], [NaN, NaN, NaN], [NaN, NaN, NaN]]\<rparr>
   \<and> \<not> no_nan \<lparr>nrows = 3, ncols = 3, rows = [[NaN, NaN, NaN], [NaN, NaN, NaN], [NaN, NaN, NaN]]\<rparr>"
  by (simp add: eval_np f64 no_nan_def finite64_def)

section \<open>Fitting and predicting\<close>

lemma fit_result: "fit self X y = (Inl NameError, self\<lparr>lasso := Some (new_Lasso True (lambda1 self))\<rparr>)"
  by (simp add: fit_def)

lemma dotp_sum:
  assumes "length xs = n" "length ys = n"
  shows "dotp xs ys = (\<Sum>k<n. xs ! k * ys ! k)"
proof -
  have "map2 (*) xs ys = map (\<lambda>k. xs ! k * ys ! k) [0..<n]"
    using assms by (intro nth_equalityI) simp_all
  then show ?thesis
    by (simp add: dotp_def interv_sum_list_conv_sum_set_nat atLeast0LessThan)
qed

text \<open>
  C1. What the code does on a call of \<open>fit\<close> with \<open>\<lambda>1 = 1/10\<close> and \<open>\<lambda>2 = 3\<close>: the inner
  Lasso is constructed with the strength \<open>1/10\<close>, where \<open>\<lambda>1 / \<surd>(1 + \<lambda>2)\<close> is \<open>1/20\<close>; the
  call raises \<^verbatim>\<open>NameError\<close> before the inner solver is run, no augmented problem is
  built and no coefficient is assigned.
\<close>

theorem fit_raises_before_inner_solver:
  "fit (ncLasso_init (Some [[0 :: real]]) (1 / 10) 3) [[0], [1]] [0, 1] =
     (Inl NameError,
      \<lparr>LapSqrt = Some [[0]], lambda1 = 1 / 10, lambda2 = 3,
        lasso = Some \<lparr>fit_intercept = True, alpha = 1 / 10, las_coef = None,
                       las_intercept = None\<rparr>,
        coef = None, intercept = None\<rparr>)
   \<and> (1 / 10) / sqrt (1 + 3) = (1 / 20 :: real)"
  by (simp add: fit_def ncLasso_init_def new_Lasso_def)

text \<open>
  C5. What the code does on a call of \<open>fit\<close> with \<open>\<lambda>2 = 0\<close>: it raises \<^verbatim>\<open>NameError\<close>
  and assigns no coefficients, so there are none to compare with those of a plain Lasso.
\<close>

theorem fit_without_penalty_raises:
  "fit (ncLasso_init (Some [[0 :: real]]) (1 / 10) 0) [[0], [1]] [0, 1] =
     (Inl NameError,
      \<lparr>LapSqrt = Some [[0]], lambda1 = 1 / 10, lambda2 = 0,
        lasso = Some \<lparr>fit_intercept = True, alpha = 1 / 10, las_coef = None,
                       las_intercept = None\<rparr>,
        coef = None, intercept = None\<rparr>)"
  by (simp add: fit_def ncLasso_init_def new_Lasso_def)



lemma reachable_unfitted:
  "reachable s \<Longrightarrow>
     coef s = None \<and> intercept s = None
     \<and> (lasso s = None \<or> lasso s = Some (new_Lasso True (lambda1 s)))"
  by (induction rule: reachable.induct) (simp_all add: ncLasso_init_def fit_def)

text \<open>
  C10. A call of \<open>fit\<close> that raises returns no result, and on an estimator that was
  constructed and then used through \<open>fit\<close> only it leaves no fitted state: no
  coefficients, no intercept, and as inner solver the Lasso object the call constructed,
  which is not fitted. The hyperparameters and the square root are unchanged.
\<close>

theorem failed_fit_leaves_no_fitted_state:
  assumes "reachable self" "fst (fit self X y) = Inl e"
  shows "coef (snd (fit self X y)) = None
       \<and> intercept (snd (fit self X y)) = None
       \<and> lasso (snd (fit self X y)) = Some (new_Lasso True (lambda1 self))
       \<and> las_coef (new_Lasso True (lambda1 self)) = None
       \<and> las_intercept (new_Lasso True (lambda1 self)) = None
       \<and> LapSqrt (snd (fit self X y)) = LapSqrt self
       \<and> lambda1 (snd (fit self X y)) = lambda1 self
       \<and> lambda2 (snd (fit self X y)) = lambda2 self"
  using reachable_unfitted [OF assms(1)] by (simp add: fit_def new_Lasso_def)

theorem failed_fit_leaves_no_fitted_state_witness:
  "reachable (ncLasso_init (Some [[1 :: real, 2]]) 1 3)
   \<and> fst (fit (ncLasso_init (Some [[1 :: real, 2]]) 1 3) [[0], [1]] [0, 1]) = Inl NameError
   \<and> coef (snd (fit (ncLasso_init (Some [[1 :: real, 2]]) 1 3) [[0], [1]] [0, 1])) = None
   \<and> intercept (snd (fit (ncLasso_init (Some [[1 :: real, 2]]) 1 3) [[0], [1]] [0, 1])) = None
   \<and> lasso (snd (fit (ncLasso_init (Some [[1 :: real, 2]]) 1 3) [[0], [1]] [0, 1]))
       = Some \<lparr>fit_intercept = True, alpha = 1, las_coef = None, las_intercept = None\<rparr>"
proof -
  have r: "reachable (ncLasso_init (Some [[1 :: real, 2]]) 1 3)"
    by (rule reachable.init)
  have f: "fst (fit (ncLasso_init (Some [[1 :: real, 2]]) 1 3) [[0], [1]] [0, 1]) = Inl NameError"
    by (simp add: fit_def)
  show ?thesis
    using failed_fit_leaves_no_fitted_state [OF r f] r f
    by (simp add: ncLasso_init_def new_Lasso_def)
qed

text \<open>
  C6. On a fitted estimator \<open>predict\<close> returns, for every row of \<open>X\<close>, its product with
  the coefficients plus the intercept; before a fit, or when a row of \<open>X\<close> has not as many
  entries as there are coefficients, it is a ShapeError.
\<close>

theorem predict_is_linear_map:
  "(coef self = Some beta \<and> intercept self = Some b \<and> list_all (\<lambda>r. length r = length beta) X
      \<longrightarrow> predict self X = Inr (map (\<lambda>r. dotp r beta + b) X)
          \<and> (\<forall>i<length X. map (\<lambda>r. dotp r beta + b) X ! i
                = (\<Sum>j<length beta. X ! i ! j * beta ! j) + b))
   \<and> (coef self = None \<or> intercept self = None \<longrightarrow> predict self X = Inl ShapeError)
   \<and> (coef self = Some beta \<and> \<not> list_all (\<lambda>r. length r = length beta) X
      \<longrightarrow> predict self X = Inl ShapeError)
   \<and> predict (ncLasso_init S0 l1 l2) X = Inl ShapeError"
  by (auto simp: predict_def ncLasso_init_def list_all_length dotp_sum split: option.splits)

theorem predict_is_linear_map_witness:
  "coef ((ncLasso_init (Some [[0 :: real]]) (1 / 10) 3)
          \<lparr>coef := Some [1 / 10], intercept := Some (3 / 10)\<rparr>) = Some [1 / 10]
   \<and> intercept ((ncLasso_init (Some [[0 :: real]]) (1 / 10) 3)
          \<lparr>coef := Some [1 / 10], intercept := Some (3 / 10)\<rparr>) = Some (3 / 10)
   \<and> predict ((ncLasso_init (Some [[0 :: real]]) (1 / 10) 3)
          \<lparr>coef := Some [1 / 10], intercept := Some (3 / 10)\<rparr>) [[2], [4]]
       = Inr [1 / 2, 7 / 10]
   \<and> predict ((ncLasso_init (Some [[0 :: real]]) (1 / 10) 3)
          \<lparr>coef := Some [1 / 10], intercept := Some (3 / 10)\<rparr>) [[2, 3]]
       = Inl ShapeError
   \<and> predict (ncLasso_init (Some [[0 :: real]]) (1 / 10) 3) [[2], [4]] = Inl ShapeError"
  using predict_is_linear_map
    [where self = "(ncLasso_init (Some [[0 :: real]]) (1 / 10) 3)
          \<lparr>coef := Some [1 / 10], intercept := Some (3 / 10)\<rparr>"
       and beta = "[1 / 10]" and b = "3 / 10" and X = "[[2], [4]]"
       and ?S0.0 = "Some [[0 :: real]]" and ?l1.0 = "1 / 10" and ?l2.0 = 3]
  by (simp add: predict_def ncLasso_init_def dotp_def)

section \<open>The graph without edges\<close>






end
